theory Spec2Isabelle
  imports Complex_Main
begin

section \<open>Harmonic field computation (HarmonicField.cpp)\<close>

text \<open>
  A shallow embedding of \<^verbatim>\<open>ttk::HarmonicField::findBestSolver\<close> and
  \<^verbatim>\<open>ttk::HarmonicField::execute\<close>. Identifiers (\<^verbatim>\<open>SimplexId\<close>) are
  mathematical integers together with the bit width of the machine type; the scalar type
  \<^verbatim>\<open>scalarFieldType\<close> is a type variable. Behaviour that C++ leaves undefined (signed
  overflow, an index outside a buffer or an Eigen container) is an error value, so a
  result \<open>Inr r\<close> always stands for a run of the program that is defined.
\<close>

subsection \<open>Errors\<close>

datatype error = SignedOverflow | OutOfBounds | BadSize

definition and_then :: "error + 'a \<Rightarrow> ('a \<Rightarrow> error + 'b) \<Rightarrow> error + 'b" where
  "and_then m f = (case m of Inl e \<Rightarrow> Inl e | Inr x \<Rightarrow> f x)"

subsection \<open>Machine integers and raw buffers\<close>

text \<open>A value of a signed type of \<open>w\<close> bits; arithmetic leaving the range is undefined.\<close>

definition in_SimplexId :: "nat \<Rightarrow> int \<Rightarrow> bool" where
  "in_SimplexId w x \<longleftrightarrow> - (2 ^ (w - 1)) \<le> x \<and> x < 2 ^ (w - 1)"

definition checked :: "nat \<Rightarrow> int \<Rightarrow> error + int" where
  "checked w x = (if in_SimplexId w x then Inr x else Inl SignedOverflow)"

text \<open>\<^verbatim>\<open>p[i]\<close> on a raw pointer to a buffer holding \<open>xs\<close>.\<close>

definition array_read :: "'a list \<Rightarrow> int \<Rightarrow> error + 'a" where
  "array_read xs i =
     (if 0 \<le> i \<and> i < int (length xs) then Inr (xs ! nat i) else Inl OutOfBounds)"

definition array_write :: "'a list \<Rightarrow> int \<Rightarrow> 'a \<Rightarrow> error + 'a list" where
  "array_write xs i v =
     (if 0 \<le> i \<and> i < int (length xs) then Inr (xs[nat i := v]) else Inl OutOfBounds)"

subsection \<open>Solving methods\<close>

datatype SolvingMethodUserType = Auto | User_Cholesky | User_Iterative

datatype SolvingMethodType = Cholesky | Iterative

subsection \<open>Eigen containers\<close>

text \<open>
  A sparse vector or matrix is its dimensions and its stored coefficients; a coefficient
  that is not stored reads as zero.
\<close>

record 'a SpVec =
  vec_size :: int
  vec_coeffs :: "int \<rightharpoonup> 'a"

record 'a SpMat =
  mat_rows :: int
  mat_cols :: int
  mat_coeffs :: "int \<times> int \<rightharpoonup> 'a"

text \<open>\<^verbatim>\<open>SpVec v(n)\<close> and \<^verbatim>\<open>SpMat m(r, c)\<close>: empty containers of the given size.\<close>

definition new_SpVec :: "int \<Rightarrow> error + 'a SpVec" where
  "new_SpVec n =
     (if 0 \<le> n then Inr \<lparr>vec_size = n, vec_coeffs = Map.empty\<rparr> else Inl BadSize)"

definition new_SpMat :: "int \<Rightarrow> int \<Rightarrow> error + 'a SpMat" where
  "new_SpMat r c =
     (if 0 \<le> r \<and> 0 \<le> c
      then Inr \<lparr>mat_rows = r, mat_cols = c, mat_coeffs = Map.empty\<rparr> else Inl BadSize)"

text \<open>\<^verbatim>\<open>v.coeffRef(i) = x\<close>: the coefficient is stored (inserted if absent) and set.\<close>

definition coeffRef_assign :: "'a SpVec \<Rightarrow> int \<Rightarrow> 'a \<Rightarrow> error + 'a SpVec" where
  "coeffRef_assign v i x =
     (if 0 \<le> i \<and> i < vec_size v then Inr (v\<lparr>vec_coeffs := (vec_coeffs v)(i \<mapsto> x)\<rparr>)
      else Inl OutOfBounds)"

text \<open>What a coefficient reads as.\<close>

definition vec_coeff :: "'a::zero SpVec \<Rightarrow> int \<Rightarrow> 'a" where
  "vec_coeff v i = (case vec_coeffs v i of None \<Rightarrow> 0 | Some x \<Rightarrow> x)"

definition mat_coeff :: "'a::zero SpMat \<Rightarrow> int \<Rightarrow> int \<Rightarrow> 'a" where
  "mat_coeff m i j = (case mat_coeffs m (i, j) of None \<Rightarrow> 0 | Some x \<Rightarrow> x)"

text \<open>
  \<^verbatim>\<open>m.setFromTriplets(begin, end)\<close>: the previous content is dropped, every triplet
  must lie inside the matrix, and triplets of the same position are summed.
\<close>

fun insert_triplets :: "'a::plus SpMat \<Rightarrow> (int \<times> int \<times> 'a) list \<Rightarrow> error + 'a SpMat" where
  "insert_triplets m [] = Inr m"
| "insert_triplets m ((i, j, v) # ts) =
     (if 0 \<le> i \<and> i < mat_rows m \<and> 0 \<le> j \<and> j < mat_cols m
      then insert_triplets
             (m\<lparr>mat_coeffs := (mat_coeffs m)((i, j) \<mapsto>
                  (case mat_coeffs m (i, j) of None \<Rightarrow> v | Some u \<Rightarrow> u + v))\<rparr>) ts
      else Inl OutOfBounds)"

definition setFromTriplets :: "'a::plus SpMat \<Rightarrow> (int \<times> int \<times> 'a) list \<Rightarrow> error + 'a SpMat" where
  "setFromTriplets m ts = insert_triplets (m\<lparr>mat_coeffs := Map.empty\<rparr>) ts"

text \<open>
  \<^verbatim>\<open>Eigen::Matrix<T, Dynamic, 1> d(m)\<close>: the dense column vector of a sparse matrix
  of one column.
\<close>

definition to_dense :: "'a::zero SpMat \<Rightarrow> error + 'a list" where
  "to_dense m =
     (if mat_cols m = 1 \<and> 0 \<le> mat_rows m
      then Inr (map (\<lambda>i. mat_coeff m (int i) 0) [0..<nat (mat_rows m)])
      else Inl BadSize)"

text \<open>\<^verbatim>\<open>std::set<SimplexId>::insert\<close> on the set's elements in iteration (ascending) order.\<close>

fun set_insert :: "int \<Rightarrow> int list \<Rightarrow> int list" where
  "set_insert x [] = [x]"
| "set_insert x (y # ys) =
     (if x < y then x # y # ys else if x = y then y # ys else y # set_insert x ys)"

subsection \<open>The object, the build and the collaborators\<close>

text \<open>
  The fields of \<^verbatim>\<open>ttk::HarmonicField\<close>, named as in the source without the trailing
  underscore; the three pointers are the buffers behind them.
\<close>

record 'a HarmonicField =
  vertexNumber :: int
  edgeNumber :: int
  constraintNumber :: int
  useCotanWeights :: bool
  sources :: "int list"
  constraints :: "'a list"
  outputScalarFieldPointer :: "'a list"
  solvingMethod :: SolvingMethodUserType
  logAlpha :: int
  threadNumber :: int

text \<open>The preprocessor switches, and the width of \<^verbatim>\<open>SimplexId\<close> in bits.\<close>

record Build =
  TTK_ENABLE_EIGEN :: bool
  TTK_ENABLE_OPENMP :: bool
  SimplexId_bits :: nat

text \<open>
  What \<^verbatim>\<open>execute\<close> calls and this file does not define: the two Laplacian builders and
  \<^verbatim>\<open>solve\<close> (declared in the class header; \<^verbatim>\<open>solve\<close> returns the solver's
  \<^verbatim>\<open>info()\<close> and the solution), the timer's reading and the text a stream prints for
  the thread number.
\<close>

record 'a Collaborators =
  compute_laplacian_with_cotan_weights :: "'a SpMat"
  compute_laplacian :: "'a SpMat"
  solve :: "SolvingMethodType \<Rightarrow> 'a SpMat \<Rightarrow> 'a SpMat \<Rightarrow> 'a SpVec \<Rightarrow> int \<times> 'a SpMat"
  getElapsedTime :: string
  show_threads :: "int \<Rightarrow> string"

text \<open>
  Modelled from the spec: \<^verbatim>\<open>pow10\<close> is called by \<^verbatim>\<open>execute\<close> and defined outside
  the sources; the spec gives the penalty value as \<open>alpha = 10^logAlpha\<close>.
\<close>

definition pow10 :: "int \<Rightarrow> 'a::{inverse,power,numeral}" where
  "pow10 l = power_int 10 l"

subsection \<open>What a run leaves behind\<close>

datatype ostream = cout | cerr

datatype debugLevel = infoMsg | advancedInfoMsg

text \<open>The calls a run makes to the outside, in order.\<close>

datatype event =
    dMsg ostream string debugLevel
  | setNbThreads int
  | solve_call SolvingMethodType

definition endl :: string where
  "endl = [CHR 0x0A]"

subsection \<open>findBestSolver\<close>

definition findBestSolver :: "Build \<Rightarrow> 'a HarmonicField \<Rightarrow> error + SolvingMethodType" where
  "findBestSolver b h =
     (let threshold = 500000 in
      and_then (checked (SimplexId_bits b) (2 * edgeNumber h)) (\<lambda>twice.
      and_then (checked (SimplexId_bits b) (twice + vertexNumber h)) (\<lambda>score.
      if score > threshold then Inr Iterative else Inr Cholesky)))"

subsection \<open>execute, block by block\<close>

text \<open>Lines 54-61: the distinct constraint vertices, through a \<^verbatim>\<open>std::set\<close>.\<close>

function insert_identifiers :: "int list \<Rightarrow> int \<Rightarrow> int \<Rightarrow> int list \<Rightarrow> error + int list" where
  "insert_identifiers identifiers n i identifiersSet =
     (if i < n then
        (case array_read identifiers i of
           Inl e \<Rightarrow> Inl e
         | Inr v \<Rightarrow> insert_identifiers identifiers n (i + 1) (set_insert v identifiersSet))
      else Inr identifiersSet)"
  by pat_completeness auto
termination
  by (relation "measure (\<lambda>(identifiers, n, i, s). nat (n - i))") auto

definition unique_identifiers :: "'a HarmonicField \<Rightarrow> error + int list" where
  "unique_identifiers h = insert_identifiers (sources h) (constraintNumber h) 0 []"

text \<open>Lines 72-77: the constraints vector.\<close>

function put_constraints :: "int list \<Rightarrow> 'a list \<Rightarrow> nat \<Rightarrow> 'a SpVec \<Rightarrow> error + 'a SpVec" where
  "put_constraints identifiersVec sf i c =
     (if i < length identifiersVec then
        (case array_read sf (int i) of
           Inl e \<Rightarrow> Inl e
         | Inr x \<Rightarrow>
             (case coeffRef_assign c (identifiersVec ! i) x of
                Inl e \<Rightarrow> Inl e
              | Inr c' \<Rightarrow> put_constraints identifiersVec sf (i + 1) c'))
      else Inr c)"
  by pat_completeness auto
termination
  by (relation "measure (\<lambda>(identifiersVec, sf, i, c). length identifiersVec - i)") auto

definition constraints_vector :: "'a HarmonicField \<Rightarrow> int list \<Rightarrow> error + 'a SpVec" where
  "constraints_vector h identifiersVec =
     and_then (new_SpVec (vertexNumber h)) (put_constraints identifiersVec (constraints h) 0)"

text \<open>Lines 79-91: the solving method.\<close>

definition choose_method :: "Build \<Rightarrow> 'a HarmonicField \<Rightarrow> error + SolvingMethodType" where
  "choose_method b h =
     (case solvingMethod h of
        Auto \<Rightarrow> findBestSolver b h
      | User_Cholesky \<Rightarrow> Inr Cholesky
      | User_Iterative \<Rightarrow> Inr Iterative)"

text \<open>Lines 93-103: the penalty matrix.\<close>

definition penalty_matrix ::
  "'a::{plus,inverse,power,numeral} HarmonicField \<Rightarrow> int list \<Rightarrow> error + 'a SpMat" where
  "penalty_matrix h identifiersVec =
     and_then (new_SpMat (vertexNumber h) (vertexNumber h)) (\<lambda>penalty.
     let alpha = pow10 (logAlpha h);
         triplets = map (\<lambda>i. (i, i, alpha)) identifiersVec
     in setFromTriplets penalty triplets)"

text \<open>Lines 120-138: the message for the solver's \<^verbatim>\<open>Eigen::ComputationInfo\<close>.\<close>

definition info_message :: "int \<Rightarrow> string" where
  "info_message res =
     (if res = 0 then ''[HarmonicField] Success!'' @ endl
      else if res = 1 then ''[HarmonicField] Numerical Issue!'' @ endl
      else if res = 2 then ''[HarmonicField] No Convergence!'' @ endl
      else if res = 3 then ''[HarmonicField] Invalid Input!'' @ endl
      else [])"

text \<open>Lines 140-153: the solution, negated, into the output array.\<close>

function copy_solution :: "'a::uminus list \<Rightarrow> int \<Rightarrow> int \<Rightarrow> 'a list \<Rightarrow> error + 'a list" where
  "copy_solution solDense n i outputScalarField =
     (if i < n then
        (case array_read solDense i of
           Inl e \<Rightarrow> Inl e
         | Inr x \<Rightarrow>
             (case array_write outputScalarField i (- x) of
                Inl e \<Rightarrow> Inl e
              | Inr out \<Rightarrow> copy_solution solDense n (i + 1) out))
      else Inr outputScalarField)"
  by pat_completeness auto
termination
  by (relation "measure (\<lambda>(solDense, n, i, out). nat (n - i))") auto

definition write_output :: "'a::{zero,uminus} SpMat \<Rightarrow> 'a HarmonicField \<Rightarrow> error + 'a list" where
  "write_output sol h =
     and_then (to_dense sol) (\<lambda>solDense.
     copy_solution solDense (vertexNumber h) 0 (outputScalarFieldPointer h))"

text \<open>The other messages.\<close>

definition begin_message :: string where
  "begin_message = ''[HarmonicField] Beginnning computation'' @ endl"

definition end_message :: "'a Collaborators \<Rightarrow> 'a HarmonicField \<Rightarrow> SolvingMethodType \<Rightarrow> string" where
  "end_message ext h sm =
     ''[HarmonicField] Ending computation after '' @ getElapsedTime ext @ ''s (''
     @ (if useCotanWeights h then ''cotan weights, '' else ''discrete laplacian, '')
     @ (if sm = Iterative then ''iterative solver, '' else ''Cholesky, '')
     @ show_threads ext (threadNumber h) @ '' thread(s))'' @ endl"

definition disabled_message :: string where
  "disabled_message =
     ''[HarmonicField]'' @ endl @ ''[HarmonicField]'' @ endl
     @ ''[HarmonicField] Eigen support disabled, computation skipped!'' @ endl
     @ ''[HarmonicField] Please re-compile TTK with Eigen support to enable this feature.'' @ endl
     @ ''[HarmonicField]'' @ endl @ ''[HarmonicField]'' @ endl"

subsection \<open>execute\<close>

text \<open>The value returned, the output array after the call, and the calls made.\<close>

record 'a Run =
  returned :: int
  outputScalarField :: "'a list"
  events :: "event list"

definition execute ::
  "Build \<Rightarrow> 'a::{zero,plus,uminus,inverse,power,numeral} Collaborators \<Rightarrow> 'a HarmonicField
     \<Rightarrow> error + 'a Run" where
  "execute b ext h =
     (if TTK_ENABLE_EIGEN b then
        and_then (unique_identifiers h) (\<lambda>identifiersVec.
        let lap = (if useCotanWeights h then compute_laplacian_with_cotan_weights ext
                   else compute_laplacian ext) in
        and_then (constraints_vector h identifiersVec) (\<lambda>constraintsVec.
        and_then (choose_method b h) (\<lambda>sm.
        and_then (penalty_matrix h identifiersVec) (\<lambda>penalty.
        let (res, sol) = solve ext sm lap penalty constraintsVec in
        and_then (write_output sol h) (\<lambda>out.
        Inr \<lparr>returned = 0, outputScalarField = out,
             events =
               (if TTK_ENABLE_OPENMP b then [setNbThreads (threadNumber h)] else [])
               @ [dMsg cout begin_message advancedInfoMsg,
                  solve_call sm,
                  dMsg cout (info_message res) advancedInfoMsg,
                  dMsg cout (end_message ext h sm) infoMsg]\<rparr>)))))
      else
        Inr \<lparr>returned = 0, outputScalarField = outputScalarFieldPointer h,
             events = [dMsg cerr disabled_message infoMsg]\<rparr>)"

subsection \<open>Inputs on which a run is defined\<close>

text \<open>
  What \<^verbatim>\<open>execute\<close> takes for granted when Eigen is enabled: a mesh size that is not
  negative; identifier and value buffers of at least \<open>constraintNumber\<close> elements; the
  identifiers read lying inside the mesh; an output buffer of at least \<open>vertexNumber\<close>
  elements; no signed overflow in the size score when the method is \<^verbatim>\<open>Auto\<close>; and a
  solver that, for a system of the size of the mesh, hands back a column with a row for
  every vertex.
\<close>

definition defined_input :: "Build \<Rightarrow> 'a Collaborators \<Rightarrow> 'a HarmonicField \<Rightarrow> bool" where
  "defined_input b ext h \<longleftrightarrow>
     0 \<le> vertexNumber h
     \<and> constraintNumber h \<le> int (length (sources h))
     \<and> constraintNumber h \<le> int (length (constraints h))
     \<and> (\<forall>x\<in>set (take (nat (constraintNumber h)) (sources h)). 0 \<le> x \<and> x < vertexNumber h)
     \<and> vertexNumber h \<le> int (length (outputScalarFieldPointer h))
     \<and> (solvingMethod h = Auto \<longrightarrow>
          in_SimplexId (SimplexId_bits b) (2 * edgeNumber h)
          \<and> in_SimplexId (SimplexId_bits b) (2 * edgeNumber h + vertexNumber h))
     \<and> (\<forall>sm lap penalty c.
          mat_rows penalty = vertexNumber h \<and> vec_size c = vertexNumber h \<longrightarrow>
          mat_cols (snd (solve ext sm lap penalty c)) = 1
          \<and> vertexNumber h \<le> mat_rows (snd (solve ext sm lap penalty c)))"

subsection \<open>Example inputs\<close>

text \<open>
  A build with 32-bit identifiers, with and without Eigen; the triangle mesh (3 vertices,
  3 edges) with vertex 2 constrained twice; a mesh whose size score is exactly the
  threshold; and collaborators whose solver reports \<^verbatim>\<open>NumericalIssue\<close> (1) and hands
  back the constraints vector as its solution.
\<close>

definition eigen_build :: Build where
  "eigen_build = \<lparr>TTK_ENABLE_EIGEN = True, TTK_ENABLE_OPENMP = True, SimplexId_bits = 32\<rparr>"

definition plain_build :: Build where
  "plain_build = \<lparr>TTK_ENABLE_EIGEN = False, TTK_ENABLE_OPENMP = False, SimplexId_bits = 32\<rparr>"

definition triangle :: "real HarmonicField" where
  "triangle =
     \<lparr>vertexNumber = 3, edgeNumber = 3, constraintNumber = 3, useCotanWeights = True,
      sources = [2, 0, 2], constraints = [10, 20, 30], outputScalarFieldPointer = [7, 8, 9],
      solvingMethod = Auto, logAlpha = 5, threadNumber = 1\<rparr>"

definition threshold_mesh :: "real HarmonicField" where
  "threshold_mesh =
     \<lparr>vertexNumber = 100000, edgeNumber = 200000, constraintNumber = 0,
      useCotanWeights = True, sources = [], constraints = [], outputScalarFieldPointer = [],
      solvingMethod = Auto, logAlpha = 5, threadNumber = 1\<rparr>"

definition failing_solver :: "real Collaborators" where
  "failing_solver =
     \<lparr>compute_laplacian_with_cotan_weights =
        \<lparr>mat_rows = 3, mat_cols = 3, mat_coeffs = Map.empty\<rparr>,
      compute_laplacian = \<lparr>mat_rows = 3, mat_cols = 3, mat_coeffs = Map.empty\<rparr>,
      solve = (\<lambda>sm lap penalty c.
        (1, \<lparr>mat_rows = vec_size c, mat_cols = 1,
            mat_coeffs = (\<lambda>p. if snd p = 0 then vec_coeffs c (fst p) else None)\<rparr>)),
      getElapsedTime = ''0.01'',
      show_threads = (\<lambda>n. ''1'')\<rparr>"

section \<open>Properties\<close>

text \<open>The loops are unfolded one step at a time, where a proof asks for it.\<close>

declare insert_identifiers.simps [simp del]
declare put_constraints.simps [simp del]
declare copy_solution.simps [simp del]

subsection \<open>Sequencing and checked arithmetic\<close>

lemma and_then_Inr [simp]: "and_then (Inr x) f = f x"
  by (simp add: and_then_def)

lemma and_then_Inl [simp]: "and_then (Inl e) f = Inl e"
  by (simp add: and_then_def)

lemma checked_ok: "in_SimplexId w x \<Longrightarrow> checked w x = Inr x"
  by (simp add: checked_def)

subsection \<open>The solver selector\<close>

lemma findBestSolver_defined:
  assumes "in_SimplexId (SimplexId_bits b) (2 * edgeNumber h)"
    and "in_SimplexId (SimplexId_bits b) (2 * edgeNumber h + vertexNumber h)"
  shows "findBestSolver b h =
           Inr (if 2 * edgeNumber h + vertexNumber h > 500000 then Iterative else Cholesky)"
  using assms by (simp add: findBestSolver_def checked_ok)

text \<open>
  The score is computed in \<^verbatim>\<open>SimplexId\<close>: with 32-bit identifiers a mesh of \<open>2^30\<close>
  edges has no defined score.
\<close>

lemma findBestSolver_overflow:
  "findBestSolver eigen_build (threshold_mesh\<lparr>edgeNumber := 2 ^ 30\<rparr>) = Inl SignedOverflow"
  by (simp add: findBestSolver_def checked_def in_SimplexId_def eigen_build_def
      threshold_mesh_def)

text \<open>
  Claim C2. With the solving method \<^verbatim>\<open>Auto\<close>, and the score
  \<open>2 * edgeNumber + vertexNumber\<close> computed without signed overflow, the iterative
  solver is chosen if and only if the score is strictly above 500000 and the Cholesky
  (direct) solver if and only if it is at or below 500000; a score of exactly 500000
  gives Cholesky.
\<close>

theorem auto_method_threshold:
  assumes "solvingMethod h = Auto"
    and "in_SimplexId (SimplexId_bits b) (2 * edgeNumber h)"
    and "in_SimplexId (SimplexId_bits b) (2 * edgeNumber h + vertexNumber h)"
  shows "(choose_method b h = Inr Iterative \<longleftrightarrow> 2 * edgeNumber h + vertexNumber h > 500000)
       \<and> (choose_method b h = Inr Cholesky \<longleftrightarrow> 2 * edgeNumber h + vertexNumber h \<le> 500000)"
  using assms by (simp add: choose_method_def findBestSolver_defined)

theorem auto_method_threshold_witness:
  "solvingMethod threshold_mesh = Auto
   \<and> in_SimplexId (SimplexId_bits eigen_build) (2 * edgeNumber threshold_mesh)
   \<and> in_SimplexId (SimplexId_bits eigen_build)
        (2 * edgeNumber threshold_mesh + vertexNumber threshold_mesh)
   \<and> 2 * edgeNumber threshold_mesh + vertexNumber threshold_mesh = 500000
   \<and> choose_method eigen_build threshold_mesh = Inr Cholesky
   \<and> choose_method eigen_build (threshold_mesh\<lparr>vertexNumber := 100001\<rparr>) = Inr Iterative"
proof -
  have a: "solvingMethod threshold_mesh = Auto"
    by (simp add: threshold_mesh_def)
  have b: "in_SimplexId (SimplexId_bits eigen_build) (2 * edgeNumber threshold_mesh)"
    by (simp add: threshold_mesh_def eigen_build_def in_SimplexId_def)
  have c: "in_SimplexId (SimplexId_bits eigen_build)
             (2 * edgeNumber threshold_mesh + vertexNumber threshold_mesh)"
    by (simp add: threshold_mesh_def eigen_build_def in_SimplexId_def)
  have d: "2 * edgeNumber threshold_mesh + vertexNumber threshold_mesh = 500000"
    by (simp add: threshold_mesh_def)
  have e: "choose_method eigen_build threshold_mesh = Inr Cholesky"
    using auto_method_threshold [OF a b c] d by simp
  have a': "solvingMethod (threshold_mesh\<lparr>vertexNumber := 100001\<rparr>) = Auto"
    by (simp add: threshold_mesh_def)
  have b': "in_SimplexId (SimplexId_bits eigen_build)
              (2 * edgeNumber (threshold_mesh\<lparr>vertexNumber := 100001\<rparr>))"
    by (simp add: threshold_mesh_def eigen_build_def in_SimplexId_def)
  have c': "in_SimplexId (SimplexId_bits eigen_build)
              (2 * edgeNumber (threshold_mesh\<lparr>vertexNumber := 100001\<rparr>)
               + vertexNumber (threshold_mesh\<lparr>vertexNumber := 100001\<rparr>))"
    by (simp add: threshold_mesh_def eigen_build_def in_SimplexId_def)
  have f: "choose_method eigen_build (threshold_mesh\<lparr>vertexNumber := 100001\<rparr>) = Inr Iterative"
    using auto_method_threshold [OF a' b' c'] by (simp add: threshold_mesh_def)
  show ?thesis
    using a b c d e f by simp
qed

subsection \<open>The distinct constraint vertices\<close>

lemma set_insert_set [simp]: "set (set_insert x s) = insert x (set s)"
  by (induction s) auto

lemma set_insert_sorted: "sorted_wrt (<) s \<Longrightarrow> sorted_wrt (<) (set_insert x s)"
  by (induction s) auto

lemma fold_set_insert_set: "set (fold set_insert xs s) = set xs \<union> set s"
  by (induction xs arbitrary: s) auto

lemma fold_set_insert_sorted: "sorted_wrt (<) s \<Longrightarrow> sorted_wrt (<) (fold set_insert xs s)"
  by (induction xs arbitrary: s) (auto simp: set_insert_sorted)

lemma insert_identifiers_fold:
  assumes "0 \<le> i" and "n \<le> int (length identifiers)"
  shows "insert_identifiers identifiers n i s =
           Inr (fold set_insert (drop (nat i) (take (nat n) identifiers)) s)"
  using assms
proof (induction identifiers n i s rule: insert_identifiers.induct)
  case (1 identifiers n i s)
  show ?case
  proof (cases "i < n")
    case True
    then have rd: "array_read identifiers i = Inr (identifiers ! nat i)"
      using 1(2,3) by (simp add: array_read_def)
    have len: "nat i < length (take (nat n) identifiers)"
      using True 1(2,3) by simp
    have dr: "drop (nat i) (take (nat n) identifiers) =
              identifiers ! nat i # drop (nat (i + 1)) (take (nat n) identifiers)"
      using Cons_nth_drop_Suc [OF len] 1(2) len by (simp add: nat_add_distrib)
    have "insert_identifiers identifiers n (i + 1) (set_insert (identifiers ! nat i) s) =
          Inr (fold set_insert (drop (nat (i + 1)) (take (nat n) identifiers))
                 (set_insert (identifiers ! nat i) s))"
      using 1(1) [OF True rd] 1(2,3) by simp
    then show ?thesis
      using True rd dr by (subst insert_identifiers.simps) simp
  next
    case False
    then show ?thesis
      using 1(2) by (subst insert_identifiers.simps) simp
  qed
qed

text \<open>
  The vector of distinct vertices is the ascending enumeration of the set of the first
  \<open>constraintNumber\<close> identifiers.
\<close>

lemma unique_identifiers_sorted_list:
  assumes "constraintNumber h \<le> int (length (sources h))"
  shows "unique_identifiers h =
           Inr (sorted_list_of_set (set (take (nat (constraintNumber h)) (sources h))))"
proof -
  let ?xs = "take (nat (constraintNumber h)) (sources h)"
  have eq: "unique_identifiers h = Inr (fold set_insert ?xs [])"
    using insert_identifiers_fold [of 0 "constraintNumber h" "sources h" "[]"] assms
    by (simp add: unique_identifiers_def)
  have "sorted_wrt (<) (fold set_insert ?xs [])"
    by (rule fold_set_insert_sorted) simp
  then have "sorted (fold set_insert ?xs []) \<and> distinct (fold set_insert ?xs [])"
    by (simp add: strict_sorted_iff)
  then have "sorted_list_of_set (set (fold set_insert ?xs [])) = fold set_insert ?xs []"
    by (simp add: sorted_list_of_set.idem_if_sorted_distinct)
  then show ?thesis
    using eq by (simp add: fold_set_insert_set)
qed

subsection \<open>The constraints vector\<close>

lemma map_upds_nth:
  "distinct xs \<Longrightarrow> k < length xs \<Longrightarrow> length xs \<le> length ys \<Longrightarrow>
     (m(xs [\<mapsto>] ys)) (xs ! k) = Some (ys ! k)"
proof (induction xs arbitrary: ys k m)
  case Nil
  then show ?case by simp
next
  case (Cons x xs)
  then obtain y ys' where ys: "ys = y # ys'"
    by (cases ys) auto
  show ?case
  proof (cases k)
    case 0
    then show ?thesis
      using Cons.prems ys by simp
  next
    case (Suc j)
    have "((m(x \<mapsto> y))(xs [\<mapsto>] ys')) (xs ! j) = Some (ys' ! j)"
      using Cons.prems ys Suc by (intro Cons.IH) auto
    then show ?thesis
      by (simp add: ys Suc)
  qed
qed

lemma put_constraints_upds:
  assumes "\<forall>k<length identifiersVec. 0 \<le> identifiersVec ! k \<and> identifiersVec ! k < vec_size c"
    and "length identifiersVec \<le> length sf"
  shows "put_constraints identifiersVec sf i c =
           Inr (c\<lparr>vec_coeffs := (vec_coeffs c)(drop i identifiersVec [\<mapsto>] drop i sf)\<rparr>)"
  using assms
proof (induction identifiersVec sf i c rule: put_constraints.induct)
  case (1 identifiersVec sf i c)
  show ?case
  proof (cases "i < length identifiersVec")
    case True
    define c' where "c' = c\<lparr>vec_coeffs := (vec_coeffs c)(identifiersVec ! i \<mapsto> sf ! i)\<rparr>"
    have rd: "array_read sf (int i) = Inr (sf ! i)"
      using True 1(3) by (simp add: array_read_def)
    have wr: "coeffRef_assign c (identifiersVec ! i) (sf ! i) = Inr c'"
      using True 1(2) by (simp add: coeffRef_assign_def c'_def)
    have rng: "\<forall>k<length identifiersVec. 0 \<le> identifiersVec ! k \<and> identifiersVec ! k < vec_size c'"
      using 1(2) by (simp add: c'_def)
    have ih: "put_constraints identifiersVec sf (i + 1) c' =
              Inr (c'\<lparr>vec_coeffs :=
                     (vec_coeffs c')(drop (i + 1) identifiersVec [\<mapsto>] drop (i + 1) sf)\<rparr>)"
      by (rule 1(1) [OF True rd wr rng 1(3)])
    have d1: "drop i identifiersVec = identifiersVec ! i # drop (i + 1) identifiersVec"
      using True by (simp add: Cons_nth_drop_Suc)
    have d2: "drop i sf = sf ! i # drop (i + 1) sf"
      using True 1(3) by (simp add: Cons_nth_drop_Suc)
    have upd: "(vec_coeffs c)(drop i identifiersVec [\<mapsto>] drop i sf) =
               (vec_coeffs c')(drop (i + 1) identifiersVec [\<mapsto>] drop (i + 1) sf)"
      by (subst d1, subst d2) (simp add: c'_def)
    have "put_constraints identifiersVec sf i c =
          put_constraints identifiersVec sf (i + 1) c'"
      using True rd wr by (subst put_constraints.simps) simp
    also have "\<dots> = Inr (c\<lparr>vec_coeffs :=
                 (vec_coeffs c)(drop i identifiersVec [\<mapsto>] drop i sf)\<rparr>)"
      unfolding ih upd by (simp add: c'_def)
    finally show ?thesis .
  next
    case False
    then show ?thesis
      by (subst put_constraints.simps) simp
  qed
qed

lemma constraints_vector_upds:
  assumes "0 \<le> vertexNumber h"
    and "\<forall>x\<in>set identifiersVec. 0 \<le> x \<and> x < vertexNumber h"
    and "length identifiersVec \<le> length (constraints h)"
  shows "constraints_vector h identifiersVec =
           Inr \<lparr>vec_size = vertexNumber h,
                vec_coeffs = Map.empty(identifiersVec [\<mapsto>] constraints h)\<rparr>"
  using assms put_constraints_upds [of identifiersVec
      "\<lparr>vec_size = vertexNumber h, vec_coeffs = Map.empty\<rparr>" "constraints h" 0]
  by (simp add: constraints_vector_def new_SpVec_def)

text \<open>
  Claim C1. Let the first \<open>constraintNumber\<close> identifiers lie inside the mesh and the
  value array hold at least \<open>constraintNumber\<close> values. The vertices passed on are the
  distinct identifiers in ascending order; the constraints vector has the size of the mesh
  and stores a coefficient exactly at the distinct identifiers (Eigen's non-zeros), every
  other coefficient reading zero; and the coefficient at the \<open>k\<close>-th smallest distinct
  identifier is the value at position \<open>k\<close> of the value array, whichever identifier stood
  at position \<open>k\<close> of the identifier array.
\<close>

theorem constraints_by_position:
  assumes "0 \<le> vertexNumber h"
    and "constraintNumber h \<le> int (length (sources h))"
    and "constraintNumber h \<le> int (length (constraints h))"
    and "\<forall>x\<in>set (take (nat (constraintNumber h)) (sources h)). 0 \<le> x \<and> x < vertexNumber h"
  shows "\<exists>c. unique_identifiers h =
               Inr (sorted_list_of_set (set (take (nat (constraintNumber h)) (sources h))))
           \<and> constraints_vector h
               (sorted_list_of_set (set (take (nat (constraintNumber h)) (sources h)))) = Inr c
           \<and> vec_size c = vertexNumber h
           \<and> dom (vec_coeffs c) = set (take (nat (constraintNumber h)) (sources h))
           \<and> (\<forall>j. vec_coeff c j \<noteq> 0
                 \<longrightarrow> j \<in> set (take (nat (constraintNumber h)) (sources h)))
           \<and> (\<forall>k < card (set (take (nat (constraintNumber h)) (sources h))).
                 vec_coeffs c
                   (sorted_list_of_set (set (take (nat (constraintNumber h)) (sources h))) ! k)
                 = Some (constraints h ! k))"
proof -
  let ?D = "set (take (nat (constraintNumber h)) (sources h))"
  let ?v = "sorted_list_of_set ?D"
  let ?c = "\<lparr>vec_size = vertexNumber h, vec_coeffs = Map.empty(?v [\<mapsto>] constraints h)\<rparr>"
  have len: "length ?v = card ?D"
    by simp
  have "card ?D \<le> length (take (nat (constraintNumber h)) (sources h))"
    by (rule card_length)
  then have le: "length ?v \<le> length (constraints h)"
    using assms(3) len by simp linarith
  have rng: "\<forall>x\<in>set ?v. 0 \<le> x \<and> x < vertexNumber h"
    using assms(4) by simp
  have cv: "constraints_vector h ?v = Inr ?c"
    by (rule constraints_vector_upds [OF assms(1) rng le])
  have dm: "dom (vec_coeffs ?c) = ?D"
    using le by simp
  have zero: "\<forall>j. vec_coeff ?c j \<noteq> 0 \<longrightarrow> j \<in> ?D"
  proof (intro allI impI)
    fix j
    assume "vec_coeff ?c j \<noteq> 0"
    then have "vec_coeffs ?c j \<noteq> None"
      by (auto simp: vec_coeff_def split: option.splits)
    then have "j \<in> dom (vec_coeffs ?c)"
      by blast
    then show "j \<in> ?D"
      using dm by simp
  qed
  have vals: "\<forall>k < card ?D. vec_coeffs ?c (?v ! k) = Some (constraints h ! k)"
    using le len by (simp add: map_upds_nth)
  have sz: "vec_size ?c = vertexNumber h"
    by simp
  note ids = unique_identifiers_sorted_list [OF assms(2)]
  show ?thesis
    by (intro exI [of _ ?c] conjI) (fact ids cv sz dm zero vals)+
qed

theorem constraints_by_position_witness:
  "0 \<le> vertexNumber triangle
   \<and> constraintNumber triangle \<le> int (length (sources triangle))
   \<and> constraintNumber triangle \<le> int (length (constraints triangle))
   \<and> sources triangle = [2, 0, 2]
   \<and> constraints triangle = [10, 20, 30]
   \<and> unique_identifiers triangle = Inr [0, 2]
   \<and> constraints_vector triangle [0, 2] =
       Inr \<lparr>vec_size = 3, vec_coeffs = [0 \<mapsto> 10, 2 \<mapsto> 20]\<rparr>"
proof -
  have a: "0 \<le> vertexNumber triangle"
    by (simp add: triangle_def)
  have b: "constraintNumber triangle \<le> int (length (sources triangle))"
    by (simp add: triangle_def)
  have c: "constraintNumber triangle \<le> int (length (constraints triangle))"
    by (simp add: triangle_def)
  have d: "\<forall>x\<in>set (take (nat (constraintNumber triangle)) (sources triangle)).
             0 \<le> x \<and> x < vertexNumber triangle"
    by (simp add: triangle_def)
  have e: "unique_identifiers triangle = Inr [0, 2]"
    by (simp add: unique_identifiers_def triangle_def insert_identifiers.simps array_read_def)
  have f: "constraints_vector triangle [0, 2] =
             Inr \<lparr>vec_size = 3, vec_coeffs = [0 \<mapsto> 10, 2 \<mapsto> 20]\<rparr>"
    by (simp add: constraints_vector_def triangle_def put_constraints.simps array_read_def
        new_SpVec_def coeffRef_assign_def)
  have g: "sources triangle = [2, 0, 2] \<and> constraints triangle = [10, 20, 30]"
    by (simp add: triangle_def)
  show ?thesis
    using constraints_by_position [OF a b c d] a b c e f g by simp
qed

subsection \<open>The penalty matrix\<close>

lemma insert_triplets_diagonal:
  assumes "\<forall>x\<in>set xs. 0 \<le> x \<and> x < mat_rows m \<and> x < mat_cols m"
    and "distinct xs"
    and "\<forall>x\<in>set xs. mat_coeffs m (x, x) = None"
  shows "insert_triplets m (map (\<lambda>i. (i, i, a)) xs) =
           Inr (m\<lparr>mat_coeffs := (\<lambda>p. if fst p = snd p \<and> fst p \<in> set xs then Some a
                                      else mat_coeffs m p)\<rparr>)"
  using assms
proof (induction xs arbitrary: m)
  case Nil
  then show ?case by simp
next
  case (Cons x xs)
  define m' where "m' = m\<lparr>mat_coeffs := (mat_coeffs m)((x, x) \<mapsto> a)\<rparr>"
  have step: "insert_triplets m (map (\<lambda>i. (i, i, a)) (x # xs)) =
              insert_triplets m' (map (\<lambda>i. (i, i, a)) xs)"
    using Cons.prems by (simp add: m'_def)
  have ih: "insert_triplets m' (map (\<lambda>i. (i, i, a)) xs) =
        Inr (m'\<lparr>mat_coeffs := (\<lambda>p. if fst p = snd p \<and> fst p \<in> set xs then Some a
                                   else mat_coeffs m' p)\<rparr>)"
    using Cons.prems by (intro Cons.IH) (auto simp: m'_def)
  have fn: "(\<lambda>p. if fst p = snd p \<and> fst p \<in> set xs then Some a else mat_coeffs m' p) =
            (\<lambda>p. if fst p = snd p \<and> fst p \<in> set (x # xs) then Some a else mat_coeffs m p)"
    by (auto simp: m'_def fun_eq_iff)
  have "m'\<lparr>mat_coeffs := (\<lambda>p. if fst p = snd p \<and> fst p \<in> set xs then Some a
                               else mat_coeffs m' p)\<rparr> =
        m\<lparr>mat_coeffs := (\<lambda>p. if fst p = snd p \<and> fst p \<in> set (x # xs) then Some a
                               else mat_coeffs m p)\<rparr>"
    unfolding fn by (simp add: m'_def)
  then show ?case
    using step ih by simp
qed

lemma penalty_matrix_diagonal:
  assumes "0 \<le> vertexNumber h"
    and "\<forall>x\<in>set identifiersVec. 0 \<le> x \<and> x < vertexNumber h"
    and "distinct identifiersVec"
  shows "penalty_matrix h identifiersVec =
           Inr \<lparr>mat_rows = vertexNumber h, mat_cols = vertexNumber h,
                mat_coeffs = (\<lambda>p. if fst p = snd p \<and> fst p \<in> set identifiersVec
                                   then Some (pow10 (logAlpha h)) else None)\<rparr>"
  using assms
    insert_triplets_diagonal [of identifiersVec
      "\<lparr>mat_rows = vertexNumber h, mat_cols = vertexNumber h, mat_coeffs = Map.empty\<rparr>"
      "pow10 (logAlpha h)"]
  by (simp add: penalty_matrix_def new_SpMat_def setFromTriplets_def cong: if_cong)

text \<open>
  Claim C5. With the identifiers read lying inside the mesh, the penalty matrix is
  \<open>vertexNumber \<times> vertexNumber\<close>; it stores a coefficient exactly at the diagonal
  positions of the distinct constrained vertices; and its coefficient at \<open>(i, j)\<close> is
  \<open>10 ^ logAlpha\<close> when \<open>i = j\<close> is a distinct constrained vertex and zero everywhere
  else, on and off the diagonal.
\<close>

theorem penalty_is_diagonal:
  assumes "0 \<le> vertexNumber h"
    and "constraintNumber h \<le> int (length (sources h))"
    and "\<forall>x\<in>set (take (nat (constraintNumber h)) (sources h)). 0 \<le> x \<and> x < vertexNumber h"
  shows "\<exists>P. unique_identifiers h =
               Inr (sorted_list_of_set (set (take (nat (constraintNumber h)) (sources h))))
           \<and> penalty_matrix h
               (sorted_list_of_set (set (take (nat (constraintNumber h)) (sources h)))) = Inr P
           \<and> mat_rows P = vertexNumber h \<and> mat_cols P = vertexNumber h
           \<and> dom (mat_coeffs P) =
               (\<lambda>i. (i, i)) ` set (take (nat (constraintNumber h)) (sources h))
           \<and> (\<forall>i j. mat_coeff P i j =
                 (if i = j \<and> i \<in> set (take (nat (constraintNumber h)) (sources h))
                  then 10 powi logAlpha h else 0))"
proof -
  let ?D = "set (take (nat (constraintNumber h)) (sources h))"
  let ?v = "sorted_list_of_set ?D"
  let ?P = "\<lparr>mat_rows = vertexNumber h, mat_cols = vertexNumber h,
             mat_coeffs = (\<lambda>p. if fst p = snd p \<and> fst p \<in> set ?v
                                then Some (pow10 (logAlpha h)) else None)\<rparr>"
  note ids = unique_identifiers_sorted_list [OF assms(2)]
  have rng: "\<forall>x\<in>set ?v. 0 \<le> x \<and> x < vertexNumber h"
    using assms(3) by simp
  have pm: "penalty_matrix h ?v = Inr ?P"
    by (rule penalty_matrix_diagonal [OF assms(1) rng]) simp
  have rows: "mat_rows ?P = vertexNumber h" and cols: "mat_cols ?P = vertexNumber h"
    by simp_all
  have dm: "dom (mat_coeffs ?P) = (\<lambda>i. (i, i)) ` ?D"
    by (auto simp: dom_def split: if_splits)
  have vals: "\<forall>i j. mat_coeff ?P i j = (if i = j \<and> i \<in> ?D then 10 powi logAlpha h else 0)"
    by (auto simp: mat_coeff_def pow10_def)
  show ?thesis
    by (intro exI [of _ ?P] conjI) (fact ids pm rows cols dm vals)+
qed

theorem penalty_is_diagonal_witness:
  "0 \<le> vertexNumber triangle
   \<and> constraintNumber triangle \<le> int (length (sources triangle))
   \<and> sources triangle = [2, 0, 2] \<and> logAlpha triangle = 5
   \<and> unique_identifiers triangle = Inr [0, 2]
   \<and> penalty_matrix triangle [0, 2] =
       Inr \<lparr>mat_rows = 3, mat_cols = 3,
            mat_coeffs = [(0, 0) \<mapsto> 100000, (2, 2) \<mapsto> 100000]\<rparr>"
proof -
  have a: "0 \<le> vertexNumber triangle"
    by (simp add: triangle_def)
  have b: "constraintNumber triangle \<le> int (length (sources triangle))"
    by (simp add: triangle_def)
  have c: "\<forall>x\<in>set (take (nat (constraintNumber triangle)) (sources triangle)).
             0 \<le> x \<and> x < vertexNumber triangle"
    by (simp add: triangle_def)
  have d: "unique_identifiers triangle = Inr [0, 2]"
    by (simp add: unique_identifiers_def triangle_def insert_identifiers.simps array_read_def)
  have e: "penalty_matrix triangle [0, 2] =
             Inr \<lparr>mat_rows = 3, mat_cols = 3,
                  mat_coeffs = [(0, 0) \<mapsto> 100000, (2, 2) \<mapsto> 100000]\<rparr>"
    by (simp add: penalty_matrix_def triangle_def new_SpMat_def setFromTriplets_def pow10_def)
  have f: "sources triangle = [2, 0, 2] \<and> logAlpha triangle = 5"
    by (simp add: triangle_def)
  show ?thesis
    using penalty_is_diagonal [OF a b c] a b d e f by simp
qed

subsection \<open>No constraints\<close>

lemma unique_identifiers_none:
  "constraintNumber h \<le> 0 \<Longrightarrow> unique_identifiers h = Inr []"
  by (simp add: unique_identifiers_def insert_identifiers.simps)

text \<open>
  Claim C8. On a mesh (of a size that is not negative) with \<open>constraintNumber = 0\<close>,
  there is no constrained vertex, the constraints vector stores no coefficient (it is the
  zero vector) and the penalty matrix stores no coefficient (every entry is zero).
\<close>

theorem nothing_assembled_without_constraints:
  assumes "0 \<le> vertexNumber h" and "constraintNumber h = 0"
  shows "\<exists>c P. unique_identifiers h = Inr []
           \<and> constraints_vector h [] = Inr c
           \<and> penalty_matrix h [] = Inr P
           \<and> vec_size c = vertexNumber h \<and> vec_coeffs c = Map.empty
           \<and> (\<forall>j. vec_coeff c j = 0)
           \<and> mat_rows P = vertexNumber h \<and> mat_cols P = vertexNumber h
           \<and> mat_coeffs P = Map.empty
           \<and> (\<forall>i j. mat_coeff P i j = 0)"
  using assms
  by (simp add: unique_identifiers_none constraints_vector_def new_SpVec_def
      put_constraints.simps penalty_matrix_def new_SpMat_def setFromTriplets_def
      vec_coeff_def mat_coeff_def)

theorem nothing_assembled_without_constraints_witness:
  "0 \<le> vertexNumber threshold_mesh \<and> constraintNumber threshold_mesh = 0
   \<and> unique_identifiers threshold_mesh = Inr []
   \<and> constraints_vector threshold_mesh [] =
       Inr \<lparr>vec_size = 100000, vec_coeffs = Map.empty\<rparr>
   \<and> penalty_matrix threshold_mesh [] =
       Inr \<lparr>mat_rows = 100000, mat_cols = 100000, mat_coeffs = Map.empty\<rparr>"
proof -
  have a: "0 \<le> vertexNumber threshold_mesh"
    by (simp add: threshold_mesh_def)
  have b: "constraintNumber threshold_mesh = 0"
    by (simp add: threshold_mesh_def)
  have c: "unique_identifiers threshold_mesh = Inr []"
    by (simp add: unique_identifiers_def threshold_mesh_def insert_identifiers.simps)
  have d: "constraints_vector threshold_mesh [] =
             Inr \<lparr>vec_size = 100000, vec_coeffs = Map.empty\<rparr>"
    by (simp add: constraints_vector_def threshold_mesh_def new_SpVec_def put_constraints.simps)
  have e: "penalty_matrix threshold_mesh [] =
             Inr \<lparr>mat_rows = 100000, mat_cols = 100000, mat_coeffs = Map.empty\<rparr>"
    by (simp add: penalty_matrix_def threshold_mesh_def new_SpMat_def setFromTriplets_def)
  show ?thesis
    using nothing_assembled_without_constraints [OF a b] a b c d e by simp
qed

subsection \<open>The output array\<close>

lemma copy_solution_map:
  assumes "0 \<le> i" and "n \<le> int (length solDense)" and "n \<le> int (length out)"
  shows "copy_solution solDense n i out =
           Inr (map (\<lambda>k. if i \<le> int k \<and> int k < n then - (solDense ! k) else out ! k)
                  [0..<length out])"
  using assms
proof (induction solDense n i out rule: copy_solution.induct)
  case (1 solDense n i out)
  show ?case
  proof (cases "i < n")
    case True
    define out' where "out' = out[nat i := - (solDense ! nat i)]"
    have rd: "array_read solDense i = Inr (solDense ! nat i)"
      using True 1(2,3) by (simp add: array_read_def)
    have wr: "array_write out i (- (solDense ! nat i)) = Inr out'"
      using True 1(2,4) by (simp add: array_write_def out'_def)
    have ih: "copy_solution solDense n (i + 1) out' =
              Inr (map (\<lambda>k. if i + 1 \<le> int k \<and> int k < n then - (solDense ! k) else out' ! k)
                     [0..<length out'])"
      using 1(2,3,4) by (intro 1(1) [OF True rd wr]) (auto simp: out'_def)
    have eq: "map (\<lambda>k. if i + 1 \<le> int k \<and> int k < n then - (solDense ! k) else out' ! k)
                [0..<length out'] =
              map (\<lambda>k. if i \<le> int k \<and> int k < n then - (solDense ! k) else out ! k)
                [0..<length out]"
      using True 1(2,4) by (auto simp: out'_def nth_list_update)
    have "copy_solution solDense n i out = copy_solution solDense n (i + 1) out'"
      using True rd wr by (subst copy_solution.simps) simp
    then show ?thesis
      using ih eq by simp
  next
    case False
    have "map (\<lambda>k. if i \<le> int k \<and> int k < n then - (solDense ! k) else out ! k)
            [0..<length out] = out"
      using False by (intro nth_equalityI) auto
    then show ?thesis
      using False by (subst copy_solution.simps) simp
  qed
qed

lemma write_output_map:
  assumes "mat_cols sol = 1"
    and "0 \<le> mat_rows sol"
    and "vertexNumber h \<le> mat_rows sol"
    and "vertexNumber h \<le> int (length (outputScalarFieldPointer h))"
  shows "write_output sol h =
           Inr (map (\<lambda>k. if int k < vertexNumber h then - mat_coeff sol (int k) 0
                          else outputScalarFieldPointer h ! k)
                  [0..<length (outputScalarFieldPointer h)])"
proof -
  let ?d = "map (\<lambda>i. mat_coeff sol (int i) 0) [0..<nat (mat_rows sol)]"
  have "copy_solution ?d (vertexNumber h) 0 (outputScalarFieldPointer h) =
        Inr (map (\<lambda>k. if 0 \<le> int k \<and> int k < vertexNumber h then - (?d ! k)
                       else outputScalarFieldPointer h ! k)
               [0..<length (outputScalarFieldPointer h)])"
    using assms by (intro copy_solution_map) auto
  also have "\<dots> = Inr (map (\<lambda>k. if int k < vertexNumber h then - mat_coeff sol (int k) 0
                          else outputScalarFieldPointer h ! k)
                  [0..<length (outputScalarFieldPointer h)])"
    using assms by auto
  finally show ?thesis
    using assms by (simp add: write_output_def to_dense_def)
qed

text \<open>
  Claim C4. Given a solution with one column and a row for every vertex, and an output
  array of at least \<open>vertexNumber\<close> elements, the output array after the copy holds at
  every vertex index \<open>i\<close> in \<open>[0, vertexNumber)\<close> the negation of the solution at \<open>i\<close>;
  the array keeps its length, and nothing past the vertices is written.
\<close>

theorem output_is_negated_solution:
  assumes "mat_cols sol = 1"
    and "0 \<le> mat_rows sol"
    and "vertexNumber h \<le> mat_rows sol"
    and "vertexNumber h \<le> int (length (outputScalarFieldPointer h))"
  shows "\<exists>out. write_output sol h = Inr out
           \<and> length out = length (outputScalarFieldPointer h)
           \<and> (\<forall>i. 0 \<le> i \<and> i < vertexNumber h \<longrightarrow> out ! nat i = - mat_coeff sol i 0)
           \<and> (\<forall>k<length out. vertexNumber h \<le> int k
                 \<longrightarrow> out ! k = outputScalarFieldPointer h ! k)"
proof -
  let ?out = "map (\<lambda>k. if int k < vertexNumber h then - mat_coeff sol (int k) 0
                        else outputScalarFieldPointer h ! k)
                [0..<length (outputScalarFieldPointer h)]"
  note wo = write_output_map [OF assms]
  have len: "length ?out = length (outputScalarFieldPointer h)"
    by simp
  have neg: "\<forall>i. 0 \<le> i \<and> i < vertexNumber h \<longrightarrow> ?out ! nat i = - mat_coeff sol i 0"
    using assms(4) by auto
  have rest: "\<forall>k<length ?out. vertexNumber h \<le> int k
                \<longrightarrow> ?out ! k = outputScalarFieldPointer h ! k"
    by auto
  show ?thesis
    by (intro exI [of _ ?out] conjI) (fact wo len neg rest)+
qed

theorem output_is_negated_solution_witness:
  "vertexNumber triangle = 3
   \<and> outputScalarFieldPointer triangle = [7, 8, 9]
   \<and> write_output \<lparr>mat_rows = 3, mat_cols = 1, mat_coeffs = [(0, 0) \<mapsto> - 2, (1, 0) \<mapsto> 1]\<rparr>
         triangle = Inr [2, - 1, 0]"
proof -
  let ?sol = "\<lparr>mat_rows = 3, mat_cols = 1, mat_coeffs = [(0, 0) \<mapsto> - 2, (1, 0) \<mapsto> (1::real)]\<rparr>"
  have a: "mat_cols ?sol = 1" and b: "0 \<le> mat_rows ?sol"
    and c: "vertexNumber triangle \<le> mat_rows ?sol"
    by (simp_all add: triangle_def)
  have d: "vertexNumber triangle \<le> int (length (outputScalarFieldPointer triangle))"
    by (simp add: triangle_def)
  have e: "write_output ?sol triangle = Inr [2, - 1, 0]"
    by (simp add: write_output_def to_dense_def triangle_def copy_solution.simps
        array_read_def array_write_def mat_coeff_def upt_rec)
  have f: "vertexNumber triangle = 3 \<and> outputScalarFieldPointer triangle = [7, 8, 9]"
    by (simp add: triangle_def)
  show ?thesis
    using output_is_negated_solution [OF a b c d] e f by simp
qed

subsection \<open>A run on a defined input\<close>

lemma choose_method_defined:
  assumes "solvingMethod h = Auto \<longrightarrow>
             in_SimplexId (SimplexId_bits b) (2 * edgeNumber h)
             \<and> in_SimplexId (SimplexId_bits b) (2 * edgeNumber h + vertexNumber h)"
  shows "\<exists>sm. choose_method b h = Inr sm"
  using assms
  by (cases "solvingMethod h") (simp_all add: choose_method_def findBestSolver_defined)

lemma distinct_identifiers_fit:
  assumes "constraintNumber h \<le> int (length (constraints h))"
  shows "length (sorted_list_of_set (set (take (nat (constraintNumber h)) (sources h))))
           \<le> length (constraints h)"
proof -
  let ?D = "set (take (nat (constraintNumber h)) (sources h))"
  have "card ?D \<le> length (take (nat (constraintNumber h)) (sources h))"
    by (rule card_length)
  then show ?thesis
    using assms by simp linarith
qed

text \<open>
  With Eigen enabled and a defined input, every block succeeds and the run is the
  straight line of the source: one call of the solver, one message for whatever it
  reports, and the copy of its solution.
\<close>

lemma execute_defined:
  assumes eigen: "TTK_ENABLE_EIGEN b" and ok: "defined_input b ext h"
  shows "\<exists>identifiersVec constraintsVec sm penalty out.
           unique_identifiers h = Inr identifiersVec
         \<and> constraints_vector h identifiersVec = Inr constraintsVec
         \<and> choose_method b h = Inr sm
         \<and> penalty_matrix h identifiersVec = Inr penalty
         \<and> write_output
              (snd (solve ext sm
                 (if useCotanWeights h then compute_laplacian_with_cotan_weights ext
                  else compute_laplacian ext) penalty constraintsVec)) h = Inr out
         \<and> execute b ext h =
             Inr \<lparr>returned = 0, outputScalarField = out,
                  events =
                    (if TTK_ENABLE_OPENMP b then [setNbThreads (threadNumber h)] else [])
                    @ [dMsg cout begin_message advancedInfoMsg,
                       solve_call sm,
                       dMsg cout (info_message (fst (solve ext sm
                         (if useCotanWeights h then compute_laplacian_with_cotan_weights ext
                          else compute_laplacian ext) penalty constraintsVec))) advancedInfoMsg,
                       dMsg cout (end_message ext h sm) infoMsg]\<rparr>"
proof -
  let ?lap = "if useCotanWeights h then compute_laplacian_with_cotan_weights ext
              else compute_laplacian ext"
  let ?v = "sorted_list_of_set (set (take (nat (constraintNumber h)) (sources h)))"
  let ?c = "\<lparr>vec_size = vertexNumber h, vec_coeffs = Map.empty(?v [\<mapsto>] constraints h)\<rparr>"
  let ?P = "\<lparr>mat_rows = vertexNumber h, mat_cols = vertexNumber h,
             mat_coeffs = (\<lambda>p. if fst p = snd p \<and> fst p \<in> set ?v
                                then Some (pow10 (logAlpha h)) else None)\<rparr>"
  have vn: "0 \<le> vertexNumber h"
    and ls: "constraintNumber h \<le> int (length (sources h))"
    and lc: "constraintNumber h \<le> int (length (constraints h))"
    and rg: "\<forall>x\<in>set (take (nat (constraintNumber h)) (sources h)). 0 \<le> x \<and> x < vertexNumber h"
    and lo: "vertexNumber h \<le> int (length (outputScalarFieldPointer h))"
    and ov: "solvingMethod h = Auto \<longrightarrow>
               in_SimplexId (SimplexId_bits b) (2 * edgeNumber h)
               \<and> in_SimplexId (SimplexId_bits b) (2 * edgeNumber h + vertexNumber h)"
    and sv: "\<And>sm lap penalty c.
               mat_rows penalty = vertexNumber h \<and> vec_size c = vertexNumber h \<Longrightarrow>
               mat_cols (snd (solve ext sm lap penalty c)) = 1
               \<and> vertexNumber h \<le> mat_rows (snd (solve ext sm lap penalty c))"
    using ok by (simp_all add: defined_input_def)
  note ids = unique_identifiers_sorted_list [OF ls]
  have rng: "\<forall>x\<in>set ?v. 0 \<le> x \<and> x < vertexNumber h"
    using rg by simp
  have cv: "constraints_vector h ?v = Inr ?c"
    by (rule constraints_vector_upds [OF vn rng distinct_identifiers_fit [OF lc]])
  have pm: "penalty_matrix h ?v = Inr ?P"
    by (rule penalty_matrix_diagonal [OF vn rng]) simp
  obtain sm where cm: "choose_method b h = Inr sm"
    using choose_method_defined [OF ov] by blast
  let ?sol = "snd (solve ext sm ?lap ?P ?c)"
  have col: "mat_cols ?sol = 1" and row: "vertexNumber h \<le> mat_rows ?sol"
    using sv [of ?P ?c sm ?lap] by simp_all
  have "0 \<le> mat_rows ?sol"
    using row vn by linarith
  then obtain out where wo: "write_output ?sol h = Inr out"
    using write_output_map [OF col _ row lo] by blast
  have ex: "execute b ext h =
             Inr \<lparr>returned = 0, outputScalarField = out,
                  events =
                    (if TTK_ENABLE_OPENMP b then [setNbThreads (threadNumber h)] else [])
                    @ [dMsg cout begin_message advancedInfoMsg,
                       solve_call sm,
                       dMsg cout (info_message (fst (solve ext sm ?lap ?P ?c))) advancedInfoMsg,
                       dMsg cout (end_message ext h sm) infoMsg]\<rparr>"
    using eigen ids cv cm pm wo by (simp add: execute_def case_prod_beta)
  show ?thesis
    by (intro exI [of _ ?v] exI [of _ ?c] exI [of _ sm] exI [of _ ?P] exI [of _ out] conjI)
      (fact ids cv cm pm wo ex)+
qed

text \<open>The example run: the solver reports \<^verbatim>\<open>NumericalIssue\<close>.\<close>

lemma triangle_defined: "defined_input eigen_build failing_solver triangle"
  by (simp add: defined_input_def eigen_build_def failing_solver_def triangle_def
      in_SimplexId_def)

lemma triangle_run:
  "execute eigen_build failing_solver triangle =
     Inr \<lparr>returned = 0, outputScalarField = [- 10, 0, - 20],
          events =
            [setNbThreads 1,
             dMsg cout begin_message advancedInfoMsg,
             solve_call Cholesky,
             dMsg cout (''[HarmonicField] Numerical Issue!'' @ endl) advancedInfoMsg,
             dMsg cout (end_message failing_solver triangle Cholesky) infoMsg]\<rparr>"
proof -
  have a: "unique_identifiers triangle = Inr [0, 2]"
    by (simp add: unique_identifiers_def triangle_def insert_identifiers.simps array_read_def)
  have b: "constraints_vector triangle [0, 2] =
             Inr \<lparr>vec_size = 3, vec_coeffs = [0 \<mapsto> 10, 2 \<mapsto> 20]\<rparr>"
    by (simp add: constraints_vector_def triangle_def put_constraints.simps array_read_def
        new_SpVec_def coeffRef_assign_def)
  have c: "choose_method eigen_build triangle = Inr Cholesky"
    by (simp add: choose_method_def findBestSolver_def checked_def in_SimplexId_def
        triangle_def eigen_build_def)
  have d: "penalty_matrix triangle [0, 2] =
             Inr \<lparr>mat_rows = 3, mat_cols = 3,
                  mat_coeffs = [(0, 0) \<mapsto> 100000, (2, 2) \<mapsto> 100000]\<rparr>"
    by (simp add: penalty_matrix_def triangle_def new_SpMat_def setFromTriplets_def pow10_def)
  have e: "write_output
             (snd (solve failing_solver sm lap P
                \<lparr>vec_size = 3, vec_coeffs = [0 \<mapsto> 10, 2 \<mapsto> 20]\<rparr>)) triangle =
           Inr [- 10, 0, - 20]" for sm lap P
    by (simp add: failing_solver_def write_output_def to_dense_def triangle_def
        copy_solution.simps array_read_def array_write_def mat_coeff_def upt_rec)
  have f: "fst (solve failing_solver sm lap P cv) = 1" for sm lap P cv
    by (simp add: failing_solver_def)
  have g: "TTK_ENABLE_EIGEN eigen_build" "TTK_ENABLE_OPENMP eigen_build"
    "threadNumber triangle = 1"
    by (simp_all add: eigen_build_def triangle_def)
  show ?thesis
    by (simp add: execute_def a b c d e f g info_message_def case_prod_beta)
qed

text \<open>
  Claim C7. With Eigen enabled and a defined input: whatever pair of outcome \<open>res\<close> and
  solution \<open>sol\<close> the solver returns, the run calls the solver exactly once, with the
  method chosen before the call (no second call with the other method), passes the
  message for \<open>res\<close> to the logger, and goes on to copy \<open>sol\<close> into the output array
  and return. Each of the four outcome kinds \<^verbatim>\<open>Success\<close> (0), \<^verbatim>\<open>NumericalIssue\<close> (1),
  \<^verbatim>\<open>NoConvergence\<close> (2) and \<^verbatim>\<open>InvalidInput\<close> (3) has a message of its own.
\<close>

theorem solver_outcome_logged_then_output:
  assumes "TTK_ENABLE_EIGEN b" and "defined_input b ext h"
  shows "\<exists>identifiersVec constraintsVec sm penalty res sol out.
           unique_identifiers h = Inr identifiersVec
         \<and> constraints_vector h identifiersVec = Inr constraintsVec
         \<and> choose_method b h = Inr sm
         \<and> penalty_matrix h identifiersVec = Inr penalty
         \<and> solve ext sm
              (if useCotanWeights h then compute_laplacian_with_cotan_weights ext
               else compute_laplacian ext) penalty constraintsVec = (res, sol)
         \<and> write_output sol h = Inr out
         \<and> execute b ext h =
             Inr \<lparr>returned = 0, outputScalarField = out,
                  events =
                    (if TTK_ENABLE_OPENMP b then [setNbThreads (threadNumber h)] else [])
                    @ [dMsg cout begin_message advancedInfoMsg,
                       solve_call sm,
                       dMsg cout (info_message res) advancedInfoMsg,
                       dMsg cout (end_message ext h sm) infoMsg]\<rparr>
         \<and> info_message 0 = ''[HarmonicField] Success!'' @ endl
         \<and> info_message 1 = ''[HarmonicField] Numerical Issue!'' @ endl
         \<and> info_message 2 = ''[HarmonicField] No Convergence!'' @ endl
         \<and> info_message 3 = ''[HarmonicField] Invalid Input!'' @ endl"
proof -
  have msgs: "info_message 0 = ''[HarmonicField] Success!'' @ endl
         \<and> info_message 1 = ''[HarmonicField] Numerical Issue!'' @ endl
         \<and> info_message 2 = ''[HarmonicField] No Convergence!'' @ endl
         \<and> info_message 3 = ''[HarmonicField] Invalid Input!'' @ endl"
    by (simp add: info_message_def)
  from execute_defined [OF assms] obtain identifiersVec constraintsVec sm penalty out
    where run: "unique_identifiers h = Inr identifiersVec"
      "constraints_vector h identifiersVec = Inr constraintsVec"
      "choose_method b h = Inr sm"
      "penalty_matrix h identifiersVec = Inr penalty"
      "write_output
              (snd (solve ext sm
                 (if useCotanWeights h then compute_laplacian_with_cotan_weights ext
                  else compute_laplacian ext) penalty constraintsVec)) h = Inr out"
      "execute b ext h =
             Inr \<lparr>returned = 0, outputScalarField = out,
                  events =
                    (if TTK_ENABLE_OPENMP b then [setNbThreads (threadNumber h)] else [])
                    @ [dMsg cout begin_message advancedInfoMsg,
                       solve_call sm,
                       dMsg cout (info_message (fst (solve ext sm
                         (if useCotanWeights h then compute_laplacian_with_cotan_weights ext
                          else compute_laplacian ext) penalty constraintsVec))) advancedInfoMsg,
                       dMsg cout (end_message ext h sm) infoMsg]\<rparr>"
    by blast
  obtain res sol where rs: "solve ext sm
              (if useCotanWeights h then compute_laplacian_with_cotan_weights ext
               else compute_laplacian ext) penalty constraintsVec = (res, sol)"
    by (cases "solve ext sm
              (if useCotanWeights h then compute_laplacian_with_cotan_weights ext
               else compute_laplacian ext) penalty constraintsVec") blast
  show ?thesis
    using run rs msgs by (intro exI [of _ identifiersVec] exI [of _ constraintsVec]
        exI [of _ sm] exI [of _ penalty] exI [of _ res] exI [of _ sol] exI [of _ out]) simp
qed

theorem solver_outcome_logged_then_output_witness:
  "TTK_ENABLE_EIGEN eigen_build \<and> defined_input eigen_build failing_solver triangle
   \<and> execute eigen_build failing_solver triangle =
       Inr \<lparr>returned = 0, outputScalarField = [- 10, 0, - 20],
            events =
              [setNbThreads 1,
               dMsg cout begin_message advancedInfoMsg,
               solve_call Cholesky,
               dMsg cout (''[HarmonicField] Numerical Issue!'' @ endl) advancedInfoMsg,
               dMsg cout (end_message failing_solver triangle Cholesky) infoMsg]\<rparr>"
proof -
  have a: "TTK_ENABLE_EIGEN eigen_build"
    by (simp add: eigen_build_def)
  show ?thesis
    using solver_outcome_logged_then_output [OF a triangle_defined] a triangle_defined
      triangle_run by simp
qed

subsection \<open>The status returned\<close>

text \<open>
  Claim C3. The call returns 0: without Eigen on every input, and with Eigen on every
  defined input, whatever the solver reports (the solver is arbitrary here, so its
  outcome may be \<^verbatim>\<open>NumericalIssue\<close>, \<^verbatim>\<open>NoConvergence\<close> or \<^verbatim>\<open>InvalidInput\<close>).
\<close>

theorem execute_returns_zero:
  assumes "TTK_ENABLE_EIGEN b \<longrightarrow> defined_input b ext h"
  shows "\<exists>r. execute b ext h = Inr r \<and> returned r = 0"
proof (cases "TTK_ENABLE_EIGEN b")
  case True
  then have "defined_input b ext h"
    using assms by simp
  from execute_defined [OF True this] show ?thesis
    by force
next
  case False
  then show ?thesis
    by (simp add: execute_def)
qed

theorem execute_returns_zero_witness:
  "defined_input eigen_build failing_solver triangle
   \<and> map_sum id returned (execute eigen_build failing_solver triangle) = Inr 0
   \<and> \<not> TTK_ENABLE_EIGEN plain_build
   \<and> map_sum id returned (execute plain_build failing_solver triangle) = Inr 0"
proof -
  have a: "TTK_ENABLE_EIGEN eigen_build \<longrightarrow> defined_input eigen_build failing_solver triangle"
    using triangle_defined by simp
  have b: "\<not> TTK_ENABLE_EIGEN plain_build"
    by (simp add: plain_build_def)
  then have c: "TTK_ENABLE_EIGEN plain_build \<longrightarrow> defined_input plain_build failing_solver triangle"
    by simp
  show ?thesis
    using execute_returns_zero [OF a] execute_returns_zero [OF c] triangle_defined b
    by auto
qed

subsection \<open>Without Eigen\<close>

text \<open>
  Claim C6. When Eigen is not available the call does nothing but pass one warning to the
  logger, on the error stream: the output array after the call is the output array
  before it, element for element, and nothing else is called.
\<close>

theorem no_eigen_leaves_output_untouched:
  assumes "\<not> TTK_ENABLE_EIGEN b"
  shows "execute b ext h =
           Inr \<lparr>returned = 0, outputScalarField = outputScalarFieldPointer h,
                events = [dMsg cerr disabled_message infoMsg]\<rparr>"
  using assms by (simp add: execute_def)

theorem no_eigen_leaves_output_untouched_witness:
  "\<not> TTK_ENABLE_EIGEN plain_build
   \<and> outputScalarFieldPointer triangle = [7, 8, 9]
   \<and> execute plain_build failing_solver triangle =
       Inr \<lparr>returned = 0, outputScalarField = [7, 8, 9],
            events = [dMsg cerr disabled_message infoMsg]\<rparr>"
proof -
  have a: "\<not> TTK_ENABLE_EIGEN plain_build"
    by (simp add: plain_build_def)
  have b: "outputScalarFieldPointer triangle = [7, 8, 9]"
    by (simp add: triangle_def)
  show ?thesis
    using no_eigen_leaves_output_untouched [OF a, of failing_solver triangle] a b by simp
qed

subsection \<open>Values that are never read\<close>

lemma array_read_take:
  assumes "take m xs = take m ys" and "i < m"
  shows "array_read xs (int i) = array_read ys (int i)"
proof -
  have len: "min (length xs) m = min (length ys) m"
    using assms(1) by (metis length_take)
  show ?thesis
  proof (cases "i < length xs")
    case True
    then have iy: "i < length ys"
      using len assms(2) by linarith
    have "xs ! i = take m xs ! i" and "ys ! i = take m ys ! i"
      using assms(2) by simp_all
    then show ?thesis
      using True iy assms(1) by (simp add: array_read_def)
  next
    case False
    then have "\<not> i < length ys"
      using len assms(2) by linarith
    then show ?thesis
      using False by (simp add: array_read_def)
  qed
qed

lemma put_constraints_take:
  assumes "take (length identifiersVec) sf = take (length identifiersVec) sf'"
  shows "put_constraints identifiersVec sf i c = put_constraints identifiersVec sf' i c"
  using assms
proof (induction identifiersVec sf i c rule: put_constraints.induct)
  case (1 identifiersVec sf i c)
  show ?case
  proof (cases "i < length identifiersVec")
    case True
    note rd = array_read_take [OF 1(2) True]
    have ih: "put_constraints identifiersVec sf (i + 1) c' =
              put_constraints identifiersVec sf' (i + 1) c'"
      if "array_read sf' (int i) = Inr x" and "coeffRef_assign c (identifiersVec ! i) x = Inr c'"
      for x c'
      using 1(1) [OF True _ that(2) 1(2)] that(1) rd by simp
    show ?thesis
      using True ih
      by (simp add: put_constraints.simps [of _ sf i c] put_constraints.simps [of _ sf' i c] rd
          split: sum.splits)
  next
    case False
    then show ?thesis
      by (simp add: put_constraints.simps [of _ sf i c] put_constraints.simps [of _ sf' i c])
  qed
qed

text \<open>
  Claim C10. Let \<open>k\<close> be the number of distinct identifiers among the first
  \<open>constraintNumber\<close>. Replacing the value array by any array that agrees with it on the
  first \<open>k\<close> positions changes nothing: the constraints vector, the penalty matrix and
  the whole run (output array included) are the same. With duplicates among the
  identifiers \<open>k < constraintNumber\<close>, so the values at positions \<open>k\<close> to
  \<open>constraintNumber - 1\<close> have no effect.
\<close>

theorem values_past_distinct_count_ignored:
  assumes "constraintNumber h \<le> int (length (sources h))"
    and "take (card (set (take (nat (constraintNumber h)) (sources h)))) sf =
         take (card (set (take (nat (constraintNumber h)) (sources h)))) (constraints h)"
  shows "unique_identifiers (h\<lparr>constraints := sf\<rparr>) = unique_identifiers h
       \<and> constraints_vector (h\<lparr>constraints := sf\<rparr>)
           (sorted_list_of_set (set (take (nat (constraintNumber h)) (sources h)))) =
         constraints_vector h
           (sorted_list_of_set (set (take (nat (constraintNumber h)) (sources h))))
       \<and> penalty_matrix (h\<lparr>constraints := sf\<rparr>)
           (sorted_list_of_set (set (take (nat (constraintNumber h)) (sources h)))) =
         penalty_matrix h
           (sorted_list_of_set (set (take (nat (constraintNumber h)) (sources h))))
       \<and> execute b ext (h\<lparr>constraints := sf\<rparr>) = execute b ext h"
proof -
  let ?h = "h\<lparr>constraints := sf\<rparr>"
  let ?v = "sorted_list_of_set (set (take (nat (constraintNumber h)) (sources h)))"
  have ui: "unique_identifiers ?h = unique_identifiers h"
    by (simp add: unique_identifiers_def)
  have tk: "take (length ?v) sf = take (length ?v) (constraints h)"
    using assms(2) by simp
  have cv: "constraints_vector ?h ?v = constraints_vector h ?v"
    using put_constraints_take [OF tk]
    by (simp add: constraints_vector_def and_then_def split: sum.splits)
  have pm: "\<And>v. penalty_matrix ?h v = penalty_matrix h v"
    by (simp add: penalty_matrix_def)
  have cm: "choose_method b ?h = choose_method b h"
    by (simp add: choose_method_def findBestSolver_def split: SolvingMethodUserType.splits)
  have wo: "\<And>sol. write_output sol ?h = write_output sol h"
    by (simp add: write_output_def)
  have em: "\<And>sm. end_message ext ?h sm = end_message ext h sm"
    by (simp add: end_message_def)
  have ex: "execute b ext ?h = execute b ext h"
    using unique_identifiers_sorted_list [OF assms(1)] ui cv
    by (simp add: execute_def pm cm wo em)
  show ?thesis
    using ui cv pm ex by simp
qed

theorem values_past_distinct_count_ignored_witness:
  "constraintNumber triangle \<le> int (length (sources triangle))
   \<and> sources triangle = [2, 0, 2] \<and> constraints triangle = [10, 20, 30]
   \<and> card (set (take (nat (constraintNumber triangle)) (sources triangle))) = 2
   \<and> constraints_vector (triangle\<lparr>constraints := [10, 20, 99]\<rparr>) [0, 2] =
       Inr \<lparr>vec_size = 3, vec_coeffs = [0 \<mapsto> 10, 2 \<mapsto> 20]\<rparr>
   \<and> execute eigen_build failing_solver (triangle\<lparr>constraints := [10, 20, 99]\<rparr>) =
       execute eigen_build failing_solver triangle"
proof -
  have a: "constraintNumber triangle \<le> int (length (sources triangle))"
    by (simp add: triangle_def)
  have k: "card (set (take (nat (constraintNumber triangle)) (sources triangle))) = 2"
    by (simp add: triangle_def card_insert_if)
  have b: "take (card (set (take (nat (constraintNumber triangle)) (sources triangle))))
             [10, 20, 99] =
           take (card (set (take (nat (constraintNumber triangle)) (sources triangle))))
             (constraints triangle)"
    unfolding k by (simp add: triangle_def)
  have c: "sources triangle = [2, 0, 2] \<and> constraints triangle = [10, 20, 30]"
    by (simp add: triangle_def)
  have d: "constraints_vector (triangle\<lparr>constraints := [10, 20, 99]\<rparr>) [0, 2] =
             Inr \<lparr>vec_size = 3, vec_coeffs = [0 \<mapsto> 10, 2 \<mapsto> 20]\<rparr>"
    by (simp add: constraints_vector_def triangle_def put_constraints.simps array_read_def
        new_SpVec_def coeffRef_assign_def)
  show ?thesis
    using values_past_distinct_count_ignored [OF a b, of eigen_build failing_solver] a c k d
    by simp
qed

end
